theory Spec2Isabelle
  imports Main
begin

section \<open>JavaScript values\<close>

text \<open>
  The module \<^verbatim>\<open>index.ios.js\<close> works on loosely typed values. The model keeps the values
  the module can tell apart: \<^verbatim>\<open>undefined\<close>, \<^verbatim>\<open>null\<close>, booleans and strings, and
  \<open>Builtin n\<close> for the value found under the name \<open>n\<close> on \<^verbatim>\<open>Object.prototype\<close> (a built-in
  function, or the prototype object itself for \<^verbatim>\<open>__proto__\<close>). Numbers and nested objects
  are left out: the JSDoc of the module types every field as a string or a boolean.
\<close>

datatype jsval = Undefined | Null | Bool bool | Str string | Builtin string

text \<open>JavaScript's ToBoolean, as used by \<^verbatim>\<open>if (x)\<close>, \<^verbatim>\<open>!x\<close>, \<^verbatim>\<open>x && y\<close> and \<^verbatim>\<open>x || y\<close>.\<close>

fun truthy :: "jsval \<Rightarrow> bool" where
  "truthy Undefined = False"
| "truthy Null = False"
| "truthy (Bool b) = b"
| "truthy (Str s) = (s \<noteq> [])"
| "truthy (Builtin n) = True"

text \<open>
  JavaScript's ToString, as used by template literals and by property keys. The text of a
  built-in function depends on the engine; the model fixes one rendering, under the
  function's own name (\<^verbatim>\<open>Object\<close> for \<^verbatim>\<open>constructor\<close>).
\<close>

fun to_string :: "jsval \<Rightarrow> string" where
  "to_string Undefined = ''undefined''"
| "to_string Null = ''null''"
| "to_string (Bool b) = (if b then ''true'' else ''false'')"
| "to_string (Str s) = s"
| "to_string (Builtin n) =
     (if n = ''__proto__'' then ''[object Object]''
      else if n = ''constructor'' then ''function Object() { [native code] }''
      else ''function '' @ n @ ''() { [native code] }'')"

text \<open>\<^verbatim>\<open>a || b\<close>\<close>

definition js_or :: "jsval \<Rightarrow> jsval \<Rightarrow> jsval" where
  "js_or a b = (if truthy a then a else b)"

text \<open>
  The property names every object literal inherits from \<^verbatim>\<open>Object.prototype\<close>. None of them is
  enumerable, so \<^verbatim>\<open>Object.keys\<close> and \<^verbatim>\<open>for ... in\<close> skip them, while the \<^verbatim>\<open>in\<close> operator and
  a property read \<^verbatim>\<open>obj[key]\<close> find them.
\<close>

definition object_prototype_keys :: "string list" where
  "object_prototype_keys =
     [''constructor'', ''hasOwnProperty'', ''isPrototypeOf'', ''propertyIsEnumerable'',
      ''toLocaleString'', ''toString'', ''valueOf'', ''__proto__'',
      ''__defineGetter__'', ''__defineSetter__'', ''__lookupGetter__'', ''__lookupSetter__'']"

text \<open>
  The constant tables of the module are object literals with string keys. An association
  list keeps their declaration order, which is the order of \<^verbatim>\<open>Object.keys\<close> and of
  \<^verbatim>\<open>for ... in\<close>.
\<close>

datatype 'a member = Own 'a | Inherited string | Missing

definition js_member :: "(string \<times> 'a) list \<Rightarrow> string \<Rightarrow> 'a member" where
  "js_member tbl k =
     (case map_of tbl k of
        Some v \<Rightarrow> Own v
      | None \<Rightarrow> if k \<in> set object_prototype_keys then Inherited k else Missing)"

text \<open>\<^verbatim>\<open>key in tbl\<close>\<close>

definition js_in :: "string \<Rightarrow> (string \<times> 'a) list \<Rightarrow> bool" where
  "js_in k tbl = (js_member tbl k \<noteq> Missing)"

text \<open>\<^verbatim>\<open>tbl[key]\<close> for a table of strings\<close>

definition js_index :: "(string \<times> string) list \<Rightarrow> string \<Rightarrow> jsval" where
  "js_index tbl k =
     (case js_member tbl k of Own s \<Rightarrow> Str s | Inherited n \<Rightarrow> Builtin n | Missing \<Rightarrow> Undefined)"

text \<open>\<^verbatim>\<open>Object.keys(tbl)\<close>\<close>

definition object_keys :: "(string \<times> 'a) list \<Rightarrow> string list" where
  "object_keys tbl = map fst tbl"

text \<open>\<^verbatim>\<open>xs.join(sep)\<close>\<close>

fun join :: "string \<Rightarrow> string list \<Rightarrow> string" where
  "join sep [] = []"
| "join sep [x] = x"
| "join sep (x # y # ys) = x @ sep @ join sep (y # ys)"

text \<open>\<^verbatim>\<open>xs.indexOf(v)\<close>: strict equality, so only a string can be found in a list of strings.\<close>

fun index_from :: "int \<Rightarrow> string list \<Rightarrow> string \<Rightarrow> int" where
  "index_from i [] s = - 1"
| "index_from i (x # xs) s = (if x = s then i else index_from (i + 1) xs s)"

definition indexOf :: "string list \<Rightarrow> jsval \<Rightarrow> int" where
  "indexOf xs v = (case v of Str s \<Rightarrow> index_from 0 xs s | _ \<Rightarrow> - 1)"

text \<open>\<^verbatim>\<open>xs[i]\<close> on an array of strings: \<^verbatim>\<open>undefined\<close> out of range.\<close>

definition js_nth :: "string list \<Rightarrow> nat \<Rightarrow> jsval" where
  "js_nth xs i = (if i < length xs then Str (xs ! i) else Undefined)"

section \<open>The options bundle\<close>

text \<open>
  The argument of \<^verbatim>\<open>openInbox\<close> and \<^verbatim>\<open>openComposer\<close> is whatever the caller passes: a plain
  object, given by its own properties, or \<^verbatim>\<open>undefined\<close>, \<^verbatim>\<open>null\<close>, a boolean or a string.
\<close>

type_synonym props = "string \<rightharpoonup> jsval"

datatype options_arg = ArgUndefined | ArgNull | ArgBool bool | ArgStr string | Object props

text \<open>\<^verbatim>\<open>options[key]\<close> on a plain object: an own property, else what the prototype has.\<close>

definition js_get :: "props \<Rightarrow> string \<Rightarrow> jsval" where
  "js_get ps k =
     (case ps k of
        Some v \<Rightarrow> v
      | None \<Rightarrow> if k \<in> set object_prototype_keys then Builtin k else Undefined)"

text \<open>\<^verbatim>\<open>key in options\<close> on a plain object\<close>

definition js_has :: "string \<Rightarrow> props \<Rightarrow> bool" where
  "js_has k ps = (k \<in> dom ps \<or> k \<in> set object_prototype_keys)"

text \<open>\<^verbatim>\<open>typeof options === 'object'\<close>: true of objects and of \<^verbatim>\<open>null\<close>.\<close>

fun typeof_object :: "options_arg \<Rightarrow> bool" where
  "typeof_object (Object ps) = True"
| "typeof_object ArgNull = True"
| "typeof_object ArgUndefined = False"
| "typeof_object (ArgBool b) = False"
| "typeof_object (ArgStr s) = False"

fun truthy_arg :: "options_arg \<Rightarrow> bool" where
  "truthy_arg (Object ps) = True"
| "truthy_arg ArgUndefined = False"
| "truthy_arg ArgNull = False"
| "truthy_arg (ArgBool b) = b"
| "truthy_arg (ArgStr s) = (s \<noteq> [])"

section \<open>Errors\<close>

text \<open>
  The module throws \<^verbatim>\<open>EmailException\<close> with a message; the runtime throws \<^verbatim>\<open>TypeError\<close> when
  \<^verbatim>\<open>in\<close> is applied to a value that is no object, or a property of \<^verbatim>\<open>undefined\<close> or \<^verbatim>\<open>null\<close>
  is read; \<open>LinkingRejected\<close> is a rejection of the promise of \<^verbatim>\<open>Linking.openURL\<close>.
\<close>

datatype js_error = EmailException string | TypeError | LinkingRejected

section \<open>The static tables\<close>

definition prefixes :: "(string \<times> string) list" where
  "prefixes =
     [(''apple-mail'', ''message://''),
      (''gmail'', ''googlegmail://''),
      (''inbox'', ''inbox-gmail://''),
      (''spark'', ''readdle-spark://''),
      (''airmail'', ''airmail://''),
      (''outlook'', ''ms-outlook://'')]"

definition titles :: "(string \<times> string) list" where
  "titles =
     [(''apple-mail'', ''Mail''),
      (''gmail'', ''Gmail''),
      (''inbox'', ''Inbox''),
      (''spark'', ''Spark''),
      (''airmail'', ''Airmail''),
      (''outlook'', ''Outlook'')]"

definition uriParams :: "(string \<times> (string \<times> string) list) list" where
  "uriParams =
     [(''apple-mail'',
         [(''cc'', ''cc''), (''bcc'', ''bcc''), (''subject'', ''subject''), (''body'', ''body'')]),
      (''gmail'',
         [(''path'', ''co''), (''to'', ''to''), (''cc'', ''cc''), (''bcc'', ''bcc''),
          (''subject'', ''subject''), (''body'', ''body'')]),
      (''inbox'',
         [(''path'', ''co''), (''to'', ''to''), (''cc'', ''cc''), (''bcc'', ''bcc''),
          (''subject'', ''subject''), (''body'', ''body'')]),
      (''spark'',
         [(''path'', ''compose''), (''to'', ''recipient''), (''cc'', ''cc''), (''bcc'', ''bcc''),
          (''subject'', ''subject''), (''body'', ''body'')]),
      (''airmail'',
         [(''path'', ''compose''), (''to'', ''to''), (''cc'', ''cc''), (''bcc'', ''bcc''),
          (''subject'', ''subject''), (''body'', ''htmlBody'')]),
      (''outlook'',
         [(''path'', ''compose''), (''to'', ''to''), (''cc'', ''cc''), (''bcc'', ''bcc''),
          (''subject'', ''subject''), (''body'', ''body'')])]"

section \<open>getUrlParams\<close>

text \<open>
  The \<^verbatim>\<open>reduce\<close> over \<^verbatim>\<open>Object.keys(appParms)\<close>: every key of the dialect is looked up in the
  options, \<^verbatim>\<open>path\<close> included, and a truthy value pushes \<^verbatim>\<open>key=value\<close>.
\<close>

definition urlParams :: "(string \<times> string) list \<Rightarrow> (string \<Rightarrow> jsval) \<Rightarrow> string list" where
  "urlParams appParms opt =
     foldl (\<lambda>params currentParam.
              if truthy (opt currentParam)
              then params @ [to_string (js_index appParms currentParam) @ ''='' @
                             to_string (opt currentParam)]
              else params)
       [] (object_keys appParms)"

text \<open>
  Reading properties of the options: a plain object answers every read; \<^verbatim>\<open>undefined\<close> and
  \<^verbatim>\<open>null\<close> throw; any other value has none of the properties this module reads.
\<close>

fun reader :: "options_arg \<Rightarrow> js_error + (string \<Rightarrow> jsval)" where
  "reader (Object ps) = Inr (js_get ps)"
| "reader ArgUndefined = Inl TypeError"
| "reader ArgNull = Inl TypeError"
| "reader (ArgBool b) = Inr (\<lambda>k. Undefined)"
| "reader (ArgStr s) = Inr (\<lambda>k. Undefined)"

text \<open>
  A name inherited from \<^verbatim>\<open>Object.prototype\<close> passes the test \<^verbatim>\<open>!appParms\<close>; its value has
  no \<^verbatim>\<open>path\<close> and no enumerable key, and the options are not read. Every dialect of the
  table has a key, so with a dialect the options are read at least once.
\<close>

definition getUrlParams :: "jsval \<Rightarrow> options_arg \<Rightarrow> js_error + string" where
  "getUrlParams app options =
     (case js_member uriParams (to_string app) of
        Missing \<Rightarrow> Inr ''''
      | Inherited n \<Rightarrow> Inr (to_string Undefined @ ''?'' @ join ''&'' [])
      | Own appParms \<Rightarrow>
          (case reader options of
             Inl e \<Rightarrow> Inl e
           | Inr opt \<Rightarrow>
               let path = (if app = Str ''apple-mail'' then js_or (opt ''to'') (Str '''')
                           else js_index appParms ''path'')
               in Inr (to_string path @ ''?'' @ join ''&'' (urlParams appParms opt))))"

section \<open>The collaborators\<close>

text \<open>
  \<^verbatim>\<open>Linking.canOpenURL\<close> and \<^verbatim>\<open>Linking.openURL\<close> return promises, which settle one way or the
  other; \<^verbatim>\<open>ActionSheetIOS.showActionSheetWithOptions\<close> calls back with the index of the
  button pressed. Each call is recorded, in order, with its argument. A collaborator that
  throws before returning its promise, or never settles or calls back, is outside the model.
\<close>

datatype 'a promise = Resolved 'a | Rejected

record sheet =
  sheet_options :: "jsval list"
  sheet_cancelButtonIndex :: nat
  sheet_title :: "jsval option"
  sheet_message :: "jsval option"

datatype event = CanOpenURL jsval | ShowActionSheet sheet | OpenURL jsval

record env =
  canOpenURL :: "jsval \<Rightarrow> bool promise"
  showActionSheetWithOptions :: "sheet \<Rightarrow> nat"
  openURL :: "jsval \<Rightarrow> unit promise"

section \<open>isAppInstalled\<close>

definition isAppInstalled :: "env \<Rightarrow> string \<Rightarrow> bool \<times> event list" where
  "isAppInstalled env app =
     (if \<not> js_in app prefixes then (False, [])
      else (case canOpenURL env (js_index prefixes app) of
              Resolved isSupported \<Rightarrow> (isSupported, [CanOpenURL (js_index prefixes app)])
            | Rejected \<Rightarrow> (False, [CanOpenURL (js_index prefixes app)])))"

section \<open>askAppChoice\<close>

text \<open>The \<^verbatim>\<open>for (let app in prefixes)\<close> loop, with \<^verbatim>\<open>availableApps\<close> and the calls made so far.\<close>

fun availableApps_loop ::
  "env \<Rightarrow> string list \<Rightarrow> string list \<times> event list \<Rightarrow> string list \<times> event list" where
  "availableApps_loop env [] acc = acc"
| "availableApps_loop env (app # rest) (availableApps, tr) =
     (case isAppInstalled env app of
        (avail, t) \<Rightarrow>
          availableApps_loop env rest
            (if avail then availableApps @ [app] else availableApps, tr @ t))"

text \<open>A default parameter value replaces \<^verbatim>\<open>undefined\<close> only.\<close>

definition default_param :: "jsval \<Rightarrow> jsval \<Rightarrow> jsval" where
  "default_param v d = (if v = Undefined then d else v)"

text \<open>
  The object handed to \<^verbatim>\<open>showActionSheetWithOptions\<close>: the titles of the available apps,
  then the cancel label; \<^verbatim>\<open>title\<close> and \<^verbatim>\<open>message\<close> are spread in unless \<^verbatim>\<open>removeText\<close> is
  truthy.
\<close>

definition action_sheet :: "string list \<Rightarrow> jsval \<Rightarrow> jsval \<Rightarrow> jsval \<Rightarrow> jsval \<Rightarrow> sheet" where
  "action_sheet availableApps title message cancelLabel removeText =
     (let opts = map (\<lambda>app. js_index titles app) availableApps @ [cancelLabel]
      in \<lparr> sheet_options = opts,
           sheet_cancelButtonIndex = length opts - 1,
           sheet_title = (if truthy removeText then None else Some title),
           sheet_message = (if truthy removeText then None else Some message) \<rparr>)"

definition askAppChoice ::
  "env \<Rightarrow> jsval \<Rightarrow> jsval \<Rightarrow> jsval \<Rightarrow> jsval \<Rightarrow> jsval \<times> event list" where
  "askAppChoice env title0 message0 cancelLabel0 removeText0 =
     (let title = default_param title0 (Str ''Open mail app'');
          message = default_param message0 (Str ''Which app would you like to open?'');
          cancelLabel = default_param cancelLabel0 (Str ''Cancel'');
          removeText = default_param removeText0 (Bool False)
      in case availableApps_loop env (object_keys prefixes) ([], []) of
           (availableApps, tr) \<Rightarrow>
             if length availableApps < 2 then (js_or (js_nth availableApps 0) Null, tr)
             else
               let sh = action_sheet availableApps title message cancelLabel removeText;
                   buttonIndex = showActionSheetWithOptions env sh
               in (if buttonIndex = length (sheet_options sh) - 1 then Null
                   else js_nth availableApps buttonIndex,
                   tr @ [ShowActionSheet sh]))"

section \<open>getApp\<close>

definition msg_not_object :: string where
  "msg_not_object = ''First parameter must be an object of options.''"

definition msg_bad_app :: string where
  \<open>msg_bad_app =
     ''Option `app` should be undefined, null, or one of the following: "'' @
     join ''", "'' (object_keys prefixes) @ ''".''\<close>

definition msg_no_app :: string where
  "msg_no_app = ''No email app found''"

text \<open>
  \<^verbatim>\<open>getApp\<close> is an async function: what it throws rejects its promise, here \<open>Inl\<close>. After
  the first test the options are falsy or of type object; \<^verbatim>\<open>'app' in options\<close> then throws a
  \<^verbatim>\<open>TypeError\<close> unless they are an object.
\<close>

definition getApp :: "env \<Rightarrow> options_arg \<Rightarrow> (js_error + jsval) \<times> event list" where
  "getApp env options =
     (if truthy_arg options \<and> \<not> typeof_object options
      then (Inl (EmailException msg_not_object), [])
      else case options of
        Object ps \<Rightarrow>
          if js_has ''app'' ps \<and> truthy (js_get ps ''app'') \<and>
             indexOf (object_keys prefixes) (js_get ps ''app'') < 0
          then (Inl (EmailException msg_bad_app), [])
          else
            let app = default_param (js_get ps ''app'') Null
            in case (if \<not> truthy app
                     then askAppChoice env (js_get ps ''title'') (js_get ps ''message'')
                            (js_get ps ''cancelLabel'') (js_get ps ''removeText'')
                     else (app, [])) of
                 (app', tr) \<Rightarrow>
                   if \<not> truthy app' then (Inl (EmailException msg_no_app), tr)
                   else (Inr app', tr)
      | _ \<Rightarrow> (Inl TypeError, []))"

section \<open>openInbox and openComposer\<close>

definition settle :: "unit promise \<Rightarrow> js_error + unit" where
  "settle p = (case p of Resolved u \<Rightarrow> Inr u | Rejected \<Rightarrow> Inl LinkingRejected)"

definition openInbox :: "env \<Rightarrow> options_arg \<Rightarrow> (js_error + unit) \<times> event list" where
  "openInbox env options =
     (case getApp env options of
        (Inl e, tr) \<Rightarrow> (Inl e, tr)
      | (Inr app, tr) \<Rightarrow>
          let url = js_index prefixes (to_string app)
          in (settle (openURL env url), tr @ [OpenURL url]))"

definition openComposer :: "env \<Rightarrow> options_arg \<Rightarrow> (js_error + unit) \<times> event list" where
  "openComposer env options =
     (case getApp env options of
        (Inl e, tr) \<Rightarrow> (Inl e, tr)
      | (Inr app, tr) \<Rightarrow>
          (case getUrlParams app options of
             Inl e \<Rightarrow> (Inl e, tr)
           | Inr params \<Rightarrow>
               let prefix = (if app = Str ''apple-mail'' then Str ''mailto:''
                             else js_index prefixes (to_string app));
                   url = Str (to_string prefix @ params)
               in (settle (openURL env url), tr @ [OpenURL url])))"

section \<open>Vocabulary of the properties\<close>

text \<open>
  The registered apps that probe as installed, in the order of the registry, and the
  calls that probe every registered app in that order.
\<close>

definition installedApps :: "env \<Rightarrow> string list" where
  "installedApps env = filter (\<lambda>app. fst (isAppInstalled env app)) (object_keys prefixes)"

definition probe_calls :: "event list" where
  "probe_calls = map (\<lambda>app. CanOpenURL (js_index prefixes app)) (object_keys prefixes)"

text \<open>
  The error kinds of the specification, by the exception the module throws:
  \<open>InvalidOptions\<close> is either of the two validation messages, \<open>NoAppAvailable\<close> the
  third message.
\<close>

definition is_InvalidOptions :: "js_error + 'a \<Rightarrow> bool" where
  "is_InvalidOptions r =
     (r = Inl (EmailException msg_not_object) \<or> r = Inl (EmailException msg_bad_app))"

definition is_NoAppAvailable :: "js_error + 'a \<Rightarrow> bool" where
  "is_NoAppAvailable r = (r = Inl (EmailException msg_no_app))"

text \<open>
  The URL builder in the words of the specification: one pair \<open>key=value\<close> for each
  field among \<open>to\<close>, \<open>cc\<close>, \<open>bcc\<close>, \<open>subject\<close>, \<open>body\<close> that the dialect defines and
  for which the options hold a non-empty value; the path is the recipient for
  \<open>apple-mail\<close> and the dialect's \<open>path\<close> for every other app; an app with no dialect
  gives the empty string.
\<close>

definition emitted :: "(string \<Rightarrow> jsval) \<Rightarrow> string \<Rightarrow> string \<Rightarrow> string list" where
  "emitted opt field key =
     (if truthy (opt field) then [key @ ''='' @ to_string (opt field)] else [])"

definition spec_pairs :: "(string \<times> string) list \<Rightarrow> (string \<Rightarrow> jsval) \<Rightarrow> string list" where
  "spec_pairs dialect opt =
     concat (map (\<lambda>field. case map_of dialect field of
                                None \<Rightarrow> []
                              | Some key \<Rightarrow> emitted opt field key)
               [''to'', ''cc'', ''bcc'', ''subject'', ''body''])"

definition spec_buildComposeUrl :: "string \<Rightarrow> props \<Rightarrow> string" where
  "spec_buildComposeUrl app ps =
     (case map_of uriParams app of
        None \<Rightarrow> []
      | Some dialect \<Rightarrow>
          (if app = ''apple-mail''
           then (if truthy (js_get ps ''to'') then to_string (js_get ps ''to'') else [])
           else (case map_of dialect ''path'' of Some p \<Rightarrow> p | None \<Rightarrow> [])) @
          ''?'' @ join ''&'' (spec_pairs dialect (js_get ps)))"

text \<open>
  The conditions of the specification on the options: a structured bundle, and an \<open>app\<close>
  field holding a non-empty value outside the registry.
\<close>

fun object_like :: "options_arg \<Rightarrow> bool" where
  "object_like (Object ps) = True"
| "object_like other = False"

fun app_outside :: "options_arg \<Rightarrow> bool" where
  "app_outside (Object ps) =
     (truthy (js_get ps ''app'') \<and> js_get ps ''app'' \<notin> Str ` set (object_keys prefixes))"
| "app_outside other = False"

text \<open>
  A device for the examples: the apps of the list are installed, the user presses the
  button of the given index, and every launch succeeds.
\<close>

definition device :: "string list \<Rightarrow> nat \<Rightarrow> env" where
  "device installed button =
     \<lparr> canOpenURL = (\<lambda>url. Resolved (url \<in> set (map (js_index prefixes) installed))),
       showActionSheetWithOptions = (\<lambda>sh. button),
       openURL = (\<lambda>url. Resolved ()) \<rparr>"

section \<open>Auxiliary facts\<close>

lemma object_keys_prefixes:
  "object_keys prefixes = [''apple-mail'', ''gmail'', ''inbox'', ''spark'', ''airmail'', ''outlook'']"
  by (simp add: object_keys_def prefixes_def)

lemma prefixes_own:
  "app \<in> set (object_keys prefixes) \<Longrightarrow> \<exists>s. (app, s) \<in> set prefixes \<and> js_member prefixes app = Own s"
  by (auto simp: js_member_def object_keys_def prefixes_def)

lemma js_in_prefixes: "app \<in> set (object_keys prefixes) \<Longrightarrow> js_in app prefixes"
  using prefixes_own [of app] by (auto simp: js_in_def)

lemma isAppInstalled_calls:
  "app \<in> set (object_keys prefixes) \<Longrightarrow>
     snd (isAppInstalled env app) = [CanOpenURL (js_index prefixes app)]"
  by (simp add: isAppInstalled_def js_in_prefixes split: promise.splits)

lemma availableApps_loop_acc:
  "availableApps_loop env ks (av, tr) =
     (av @ filter (\<lambda>k. fst (isAppInstalled env k)) ks,
      tr @ concat (map (\<lambda>k. snd (isAppInstalled env k)) ks))"
  by (induction ks arbitrary: av tr) (auto split: prod.splits)

lemma availableApps_loop_prefixes:
  "availableApps_loop env (object_keys prefixes) ([], []) = (installedApps env, probe_calls)"
proof -
  have "concat (map (\<lambda>k. snd (isAppInstalled env k)) ks) =
          map (\<lambda>app. CanOpenURL (js_index prefixes app)) ks"
    if "set ks \<subseteq> set (object_keys prefixes)" for ks
    using that by (induction ks) (simp_all add: isAppInstalled_calls)
  then show ?thesis
    by (simp add: availableApps_loop_acc installedApps_def probe_calls_def)
qed

lemma probe_calls_schemes:
  "probe_calls =
     [CanOpenURL (Str ''message://''), CanOpenURL (Str ''googlegmail://''),
      CanOpenURL (Str ''inbox-gmail://''), CanOpenURL (Str ''readdle-spark://''),
      CanOpenURL (Str ''airmail://''), CanOpenURL (Str ''ms-outlook://'')]"
  by (simp add: probe_calls_def object_keys_def prefixes_def js_index_def js_member_def)

lemma installedApps_subset: "set (installedApps env) \<subseteq> set (object_keys prefixes)"
  by (auto simp: installedApps_def)

lemma askAppChoice_few:
  "length (installedApps env) < 2 \<Longrightarrow>
     askAppChoice env t m c r = (js_or (js_nth (installedApps env) 0) Null, probe_calls)"
  by (simp add: askAppChoice_def availableApps_loop_prefixes Let_def)

lemma askAppChoice_many:
  "2 \<le> length (installedApps env) \<Longrightarrow>
     askAppChoice env t m c r =
       (let sh = action_sheet (installedApps env) (default_param t (Str ''Open mail app''))
                   (default_param m (Str ''Which app would you like to open?''))
                   (default_param c (Str ''Cancel'')) (default_param r (Bool False))
        in (if showActionSheetWithOptions env sh = length (installedApps env) then Null
            else js_nth (installedApps env) (showActionSheetWithOptions env sh),
            probe_calls @ [ShowActionSheet sh]))"
  by (simp add: askAppChoice_def availableApps_loop_prefixes Let_def action_sheet_def)

lemma getApp_no_app:
  "\<not> truthy (js_get ps ''app'') \<Longrightarrow>
     getApp env (Object ps) =
       (case askAppChoice env (js_get ps ''title'') (js_get ps ''message'')
               (js_get ps ''cancelLabel'') (js_get ps ''removeText'') of
          (app', tr) \<Rightarrow>
            if \<not> truthy app' then (Inl (EmailException msg_no_app), tr) else (Inr app', tr))"
  by (auto simp: getApp_def default_param_def Let_def)

lemma indexOf_keys: "0 \<le> indexOf xs v \<longleftrightarrow> (\<exists>k \<in> set xs. v = Str k)"
proof -
  have "0 \<le> i \<Longrightarrow> (0 \<le> index_from i xs s \<longleftrightarrow> s \<in> set xs)" for i s
    by (induction xs arbitrary: i) auto
  then show ?thesis
    by (cases v) (auto simp: indexOf_def)
qed

lemma askAppChoice_result:
  assumes "truthy (fst (askAppChoice env t m c r))"
  shows "\<exists>k \<in> set (installedApps env). fst (askAppChoice env t m c r) = Str k"
proof (cases "length (installedApps env) < 2")
  case True
  with assms show ?thesis
    by (cases "installedApps env") (auto simp: askAppChoice_few js_or_def js_nth_def)
next
  case False
  then have "2 \<le> length (installedApps env)" by simp
  with assms show ?thesis
    by (auto simp: askAppChoice_many Let_def js_nth_def split: if_splits)
qed

lemma getApp_Inr_cases:
  assumes "fst (getApp env options) = Inr app"
  shows "\<exists>ps. options = Object ps \<and> (\<exists>k \<in> set (object_keys prefixes). app = Str k)"
proof (cases options)
  case (Object ps)
  show ?thesis
  proof (cases "truthy (js_get ps ''app'')")
    case True
    with assms Object have "\<not> indexOf (object_keys prefixes) (js_get ps ''app'') < 0 \<or> \<not> js_has ''app'' ps"
      and app: "app = js_get ps ''app''"
      by (auto simp: getApp_def default_param_def Let_def split: if_splits)
    moreover from True have "js_has ''app'' ps"
      by (auto simp: js_has_def js_get_def split: option.splits if_splits)
    ultimately have "0 \<le> indexOf (object_keys prefixes) (js_get ps ''app'')" by auto
    then show ?thesis using Object app by (simp add: indexOf_keys)
  next
    case False
    let ?a = "askAppChoice env (js_get ps ''title'') (js_get ps ''message'')
               (js_get ps ''cancelLabel'') (js_get ps ''removeText'')"
    from assms Object False have "truthy (fst ?a)" and "app = fst ?a"
      by (auto simp: getApp_no_app split: prod.splits if_splits)
    with askAppChoice_result [of env] installedApps_subset [of env] Object show ?thesis
      by fastforce
  qed
qed (use assms in \<open>auto simp: getApp_def split: if_splits\<close>)

section \<open>Resolution of an explicitly named app\<close>

text \<open>
  C3: when the \<open>app\<close> field of the options holds a registered app id, \<open>getApp\<close> yields
  exactly that id and calls neither the availability probe nor the picker, whatever the
  device has installed.
\<close>

theorem getApp_explicit_app:
  "ps ''app'' = Some (Str a) \<Longrightarrow> a \<in> set (object_keys prefixes) \<Longrightarrow>
     getApp env (Object ps) = (Inr (Str a), [])"
proof -
  assume ps: "ps ''app'' = Some (Str a)" and a: "a \<in> set (object_keys prefixes)"
  from a have "a \<noteq> []" by (auto simp: object_keys_prefixes)
  moreover from a have "0 \<le> indexOf (object_keys prefixes) (Str a)"
    by (simp add: indexOf_keys)
  ultimately show ?thesis using ps
    by (simp add: getApp_def js_get_def default_param_def)
qed

theorem getApp_explicit_app_witness:
  "[''app'' \<mapsto> Str ''gmail''] ''app'' = Some (Str ''gmail'') \<and>
   ''gmail'' \<in> set (object_keys prefixes) \<and>
   getApp (device [] 0) (Object [''app'' \<mapsto> Str ''gmail'']) = (Inr (Str ''gmail''), [])"
  using getApp_explicit_app [of "[''app'' \<mapsto> Str ''gmail'']" "''gmail''" "device [] 0"]
  by (simp add: object_keys_prefixes)

section \<open>Every resolved app is registered\<close>

text \<open>
  C10: every app that \<open>getApp\<close> returns, taken from the options or chosen through
  \<open>askAppChoice\<close>, is a key of \<open>prefixes\<close>, so the lookup \<open>prefixes[app]\<close> of
  \<open>openInbox\<close> and \<open>openComposer\<close> finds that key's scheme and is never undefined.
\<close>

theorem getApp_result_registered:
  "fst (getApp env options) = Inr app \<Longrightarrow>
     \<exists>k s. app = Str k \<and> (k, s) \<in> set prefixes \<and> js_index prefixes (to_string app) = Str s"
proof -
  assume "fst (getApp env options) = Inr app"
  then obtain k where "k \<in> set (object_keys prefixes)" "app = Str k"
    using getApp_Inr_cases by blast
  with prefixes_own [of k] show ?thesis
    by (auto simp: js_index_def)
qed

theorem getApp_result_registered_witness:
  "fst (getApp (device [''spark''] 0) (Object Map.empty)) = Inr (Str ''spark'') \<and>
   (\<exists>k s. Str ''spark'' = Str k \<and> (k, s) \<in> set prefixes \<and>
      js_index prefixes (to_string (Str ''spark'')) = Str s)"
proof -
  have h: "fst (getApp (device [''spark''] 0) (Object Map.empty)) = Inr (Str ''spark'')"
    by code_simp
  show ?thesis using h getApp_result_registered [OF h] by simp
qed

lemma uriParams_own:
  "app \<in> set (object_keys prefixes) \<Longrightarrow> \<exists>d. (app, d) \<in> set uriParams \<and> js_member uriParams app = Own d"
  by (auto simp: js_member_def object_keys_prefixes uriParams_def)

lemma getUrlParams_Object_registered:
  "app \<in> set (object_keys prefixes) \<Longrightarrow> \<exists>params. getUrlParams (Str app) (Object ps) = Inr params"
  using uriParams_own [of app] by (auto simp: getUrlParams_def Let_def)

section \<open>What the launcher receives\<close>

text \<open>
  C8: when \<open>getApp\<close> resolves an app, \<open>openInbox\<close> hands the launcher exactly the scheme
  the registry holds for that app, and \<open>openComposer\<close> hands it the prefix followed by
  the result of \<open>getUrlParams\<close>, the prefix being \<open>mailto:\<close> for \<open>apple-mail\<close> and the
  registry's scheme for every other app. Either makes this one launcher call after the calls
  of the resolution, and returns what the launcher's promise settles to.
\<close>
theorem open_launch_url:
  "getApp env options = (Inr app, tr) \<Longrightarrow>
     \<exists>k s params. app = Str k \<and> (k, s) \<in> set prefixes \<and>
        openInbox env options = (settle (openURL env (Str s)), tr @ [OpenURL (Str s)]) \<and>
        getUrlParams app options = Inr params \<and>
        openComposer env options =
          (settle (openURL env (Str ((if k = ''apple-mail'' then ''mailto:'' else s) @ params))),
           tr @ [OpenURL (Str ((if k = ''apple-mail'' then ''mailto:'' else s) @ params))])"
proof -
  assume g: "getApp env options = (Inr app, tr)"
  then have "fst (getApp env options) = Inr app" by simp
  then obtain ps k where o: "options = Object ps" and k: "k \<in> set (object_keys prefixes)"
    and app: "app = Str k"
    using getApp_Inr_cases by blast
  from prefixes_own [OF k] obtain s where s: "(k, s) \<in> set prefixes" "js_member prefixes k = Own s"
    by blast
  from getUrlParams_Object_registered [OF k] obtain params
    where p: "getUrlParams (Str k) (Object ps) = Inr params" by blast
  have "openInbox env options = (settle (openURL env (Str s)), tr @ [OpenURL (Str s)])"
    using g app s by (simp add: openInbox_def js_index_def Let_def)
  moreover have "openComposer env options =
          (settle (openURL env (Str ((if k = ''apple-mail'' then ''mailto:'' else s) @ params))),
           tr @ [OpenURL (Str ((if k = ''apple-mail'' then ''mailto:'' else s) @ params))])"
    using g app s p o by (simp add: openComposer_def js_index_def Let_def)
  ultimately show ?thesis using app s p o by blast
qed

lemma getUrlParams_apple:
  "getUrlParams (Str ''apple-mail'') (Object [''app'' \<mapsto> Str ''apple-mail'', ''to'' \<mapsto> Str ''a@b.com'', ''subject'' \<mapsto> Str ''Hi'']) = Inr ''a@b.com?subject=Hi''"
  by code_simp

theorem open_launch_url_witness:
  "getApp (device [] 0)
     (Object [''app'' \<mapsto> Str ''apple-mail'', ''to'' \<mapsto> Str ''a@b.com'', ''subject'' \<mapsto> Str ''Hi'']) =
     (Inr (Str ''apple-mail''), []) \<and>
   openInbox (device [] 0)
     (Object [''app'' \<mapsto> Str ''apple-mail'', ''to'' \<mapsto> Str ''a@b.com'', ''subject'' \<mapsto> Str ''Hi'']) =
     (Inr (), [OpenURL (Str ''message://'')]) \<and>
   openComposer (device [] 0)
     (Object [''app'' \<mapsto> Str ''apple-mail'', ''to'' \<mapsto> Str ''a@b.com'', ''subject'' \<mapsto> Str ''Hi'']) =
     (Inr (), [OpenURL (Str ''mailto:a@b.com?subject=Hi'')])"
proof -
  let ?o = "Object [''app'' \<mapsto> Str ''apple-mail'', ''to'' \<mapsto> Str ''a@b.com'', ''subject'' \<mapsto> Str ''Hi'']"
  have h: "getApp (device [] 0) ?o = (Inr (Str ''apple-mail''), [])"
    by code_simp
  from open_launch_url [OF h] obtain k s params where
    "Str ''apple-mail'' = Str k" "(k, s) \<in> set prefixes"
    "openInbox (device [] 0) ?o = (settle (openURL (device [] 0) (Str s)), [] @ [OpenURL (Str s)])"
    "getUrlParams (Str ''apple-mail'') ?o = Inr params"
    "openComposer (device [] 0) ?o =
          (settle (openURL (device [] 0) (Str ((if k = ''apple-mail'' then ''mailto:'' else s) @ params))),
           [] @ [OpenURL (Str ((if k = ''apple-mail'' then ''mailto:'' else s) @ params))])"
    by blast
  then show ?thesis using h
    by (auto simp: prefixes_def getUrlParams_apple settle_def device_def)
qed

lemma open_error:
  "fst (getApp env options) = Inl e \<Longrightarrow>
     openInbox env options = (Inl e, snd (getApp env options)) \<and>
     openComposer env options = (Inl e, snd (getApp env options))"
  by (cases "getApp env options") (simp add: openInbox_def openComposer_def)

lemma probe_calls_no_sheet: "ShowActionSheet sh \<notin> set probe_calls"
  by (auto simp: probe_calls_def)

section \<open>Resolution with no app named\<close>

text \<open>
  C6: when the \<open>app\<close> field is absent or falsy and exactly one registered app probes as
  installed, \<open>getApp\<close> yields that app after probing the registry, and never shows the
  picker; when no registered app probes as installed, \<open>openInbox\<close> and \<open>openComposer\<close>
  fail with the exception \<open>No email app found\<close>.
\<close>
theorem getApp_single_or_none:
  "\<not> truthy (js_get ps ''app'') \<Longrightarrow>
     (installedApps env = [a] \<longrightarrow>
        getApp env (Object ps) = (Inr (Str a), probe_calls) \<and>
        (\<forall>sh. ShowActionSheet sh \<notin> set (snd (getApp env (Object ps))))) \<and>
     (installedApps env = [] \<longrightarrow>
        openInbox env (Object ps) = (Inl (EmailException msg_no_app), probe_calls) \<and>
        openComposer env (Object ps) = (Inl (EmailException msg_no_app), probe_calls) \<and>
        is_NoAppAvailable (fst (openInbox env (Object ps))) \<and>
        is_NoAppAvailable (fst (openComposer env (Object ps))))"
proof (intro conjI impI)
  assume no: "\<not> truthy (js_get ps ''app'')"
  {
    assume one: "installedApps env = [a]"
    have "a \<in> set (object_keys prefixes)"
      using installedApps_subset [of env] one by simp
    then have "a \<noteq> []" by (auto simp: object_keys_prefixes)
    then show g: "getApp env (Object ps) = (Inr (Str a), probe_calls)"
      using no one by (simp add: getApp_no_app askAppChoice_few js_or_def js_nth_def)
    show "\<forall>sh. ShowActionSheet sh \<notin> set (snd (getApp env (Object ps)))"
      by (simp add: g probe_calls_no_sheet)
  }
  {
    assume none: "installedApps env = []"
    have g: "getApp env (Object ps) = (Inl (EmailException msg_no_app), probe_calls)"
      using no none by (simp add: getApp_no_app askAppChoice_few js_or_def js_nth_def)
    then show i: "openInbox env (Object ps) = (Inl (EmailException msg_no_app), probe_calls)"
      and c: "openComposer env (Object ps) = (Inl (EmailException msg_no_app), probe_calls)"
      using open_error [of env "Object ps" "EmailException msg_no_app"] by simp_all
    show "is_NoAppAvailable (fst (openInbox env (Object ps)))"
      and "is_NoAppAvailable (fst (openComposer env (Object ps)))"
      by (simp_all add: i c is_NoAppAvailable_def)
  }
qed

lemma installed_spark: "installedApps (device [''spark''] 0) = [''spark'']"
  by code_simp

lemma installed_none: "installedApps (device [] 0) = []"
  by code_simp

theorem getApp_single_or_none_witness:
  "\<not> truthy (js_get Map.empty ''app'') \<and>
   installedApps (device [''spark''] 0) = [''spark''] \<and>
   getApp (device [''spark''] 0) (Object Map.empty) = (Inr (Str ''spark''), probe_calls) \<and>
   installedApps (device [] 0) = [] \<and>
   openInbox (device [] 0) (Object Map.empty) = (Inl (EmailException ''No email app found''), probe_calls) \<and>
   openComposer (device [] 0) (Object Map.empty) = (Inl (EmailException ''No email app found''), probe_calls)"
proof -
  have h: "\<not> truthy (js_get Map.empty ''app'')"
    by (simp add: js_get_def object_prototype_keys_def)
  show ?thesis
    using h getApp_single_or_none [OF h, of "device [''spark''] 0" "''spark''"]
      getApp_single_or_none [OF h, of "device [] 0" "''spark''"]
    by (simp add: installed_spark installed_none msg_no_app_def)
qed

lemma titles_own:
  "app \<in> set (object_keys prefixes) \<Longrightarrow> \<exists>t. (app, t) \<in> set titles \<and> js_index titles app = Str t"
  by (auto simp: js_index_def js_member_def object_keys_prefixes titles_def)

text \<open>
  C7: when the \<open>app\<close> field is absent or falsy and two or more registered apps probe as
  installed, the picker is shown once, after the probes, with the titles of the installed
  apps in registry order followed by the cancel label, whose index is the cancel button
  index; pressing the button of an app resolves the app at that position of the installed
  list, and pressing the cancel button makes \<open>getApp\<close>, \<open>openInbox\<close> and \<open>openComposer\<close>
  fail with \<open>No email app found\<close>.
\<close>
theorem getApp_picker:
  "\<not> truthy (js_get ps ''app'') \<Longrightarrow> 2 \<le> length (installedApps env) \<Longrightarrow>
     \<exists>sh. snd (getApp env (Object ps)) = probe_calls @ [ShowActionSheet sh] \<and>
          sheet_options sh =
            map (\<lambda>app. js_index titles app) (installedApps env) @
            [default_param (js_get ps ''cancelLabel'') (Str ''Cancel'')] \<and>
          (\<forall>app \<in> set (installedApps env). \<exists>t. (app, t) \<in> set titles \<and> js_index titles app = Str t) \<and>
          sheet_cancelButtonIndex sh = length (installedApps env) \<and>
          (\<forall>i < length (installedApps env).
             showActionSheetWithOptions env sh = i \<longrightarrow>
               fst (getApp env (Object ps)) = Inr (Str (installedApps env ! i))) \<and>
          (showActionSheetWithOptions env sh = sheet_cancelButtonIndex sh \<longrightarrow>
             is_NoAppAvailable (fst (getApp env (Object ps))) \<and>
             is_NoAppAvailable (fst (openInbox env (Object ps))) \<and>
             is_NoAppAvailable (fst (openComposer env (Object ps))))"
proof -
  assume no: "\<not> truthy (js_get ps ''app'')" and many: "2 \<le> length (installedApps env)"
  define sh where "sh = action_sheet (installedApps env)
      (default_param (js_get ps ''title'') (Str ''Open mail app''))
      (default_param (js_get ps ''message'') (Str ''Which app would you like to open?''))
      (default_param (js_get ps ''cancelLabel'') (Str ''Cancel''))
      (default_param (js_get ps ''removeText'') (Bool False))"
  let ?i = "showActionSheetWithOptions env sh"
  have ask: "askAppChoice env (js_get ps ''title'') (js_get ps ''message'')
               (js_get ps ''cancelLabel'') (js_get ps ''removeText'') =
             (if ?i = length (installedApps env) then Null else js_nth (installedApps env) ?i,
              probe_calls @ [ShowActionSheet sh])"
    using askAppChoice_many [OF many] by (simp add: sh_def Let_def)
  have keys: "\<And>app. app \<in> set (installedApps env) \<Longrightarrow> app \<noteq> []"
    using installedApps_subset [of env] by (auto simp: object_keys_prefixes)
  have 1: "snd (getApp env (Object ps)) = probe_calls @ [ShowActionSheet sh]"
    using no by (simp add: getApp_no_app ask)
  have 2: "sheet_options sh = map (\<lambda>app. js_index titles app) (installedApps env) @
            [default_param (js_get ps ''cancelLabel'') (Str ''Cancel'')]"
    and 3: "sheet_cancelButtonIndex sh = length (installedApps env)"
    by (simp_all add: sh_def action_sheet_def)
  have 4: "\<forall>app \<in> set (installedApps env). \<exists>t. (app, t) \<in> set titles \<and> js_index titles app = Str t"
    using installedApps_subset [of env] titles_own by blast
  have 5: "fst (getApp env (Object ps)) = Inr (Str (installedApps env ! i))"
    if "i < length (installedApps env)" "?i = i" for i
    using no that keys [of "installedApps env ! i"]
    by (simp add: getApp_no_app ask js_nth_def)
  have 6: "fst (getApp env (Object ps)) = Inl (EmailException msg_no_app)"
    if "?i = sheet_cancelButtonIndex sh"
    using no that by (simp add: getApp_no_app ask 3)
  from 6 open_error [of env "Object ps" "EmailException msg_no_app"]
  have 7: "?i = sheet_cancelButtonIndex sh \<longrightarrow>
             is_NoAppAvailable (fst (getApp env (Object ps))) \<and>
             is_NoAppAvailable (fst (openInbox env (Object ps))) \<and>
             is_NoAppAvailable (fst (openComposer env (Object ps)))"
    by (simp add: is_NoAppAvailable_def)
  show ?thesis
  proof (intro exI [of _ sh] conjI)
    show "\<forall>i < length (installedApps env).
             showActionSheetWithOptions env sh = i \<longrightarrow>
               fst (getApp env (Object ps)) = Inr (Str (installedApps env ! i))"
      using 5 by simp
  qed (fact 1 2 3 4 7)+
qed

lemma installed_two: "installedApps (device [''gmail'', ''outlook''] b) = [''gmail'', ''outlook'']"
proof -
  have "installedApps (device [''gmail'', ''outlook''] b) = installedApps (device [''gmail'', ''outlook''] 0)"
    by (simp add: installedApps_def isAppInstalled_def device_def)
  also have "\<dots> = [''gmail'', ''outlook'']" by code_simp
  finally show ?thesis .
qed

theorem getApp_picker_witness:
  "\<not> truthy (js_get Map.empty ''app'') \<and>
   2 \<le> length (installedApps (device [''gmail'', ''outlook''] 1)) \<and>
   (\<exists>sh. snd (getApp (device [''gmail'', ''outlook''] 1) (Object Map.empty)) =
            probe_calls @ [ShowActionSheet sh] \<and>
         sheet_options sh = [Str ''Gmail'', Str ''Outlook'', Str ''Cancel''] \<and>
         sheet_cancelButtonIndex sh = 2 \<and>
         fst (getApp (device [''gmail'', ''outlook''] 1) (Object Map.empty)) = Inr (Str ''outlook'')) \<and>
   is_NoAppAvailable (fst (getApp (device [''gmail'', ''outlook''] 2) (Object Map.empty))) \<and>
   is_NoAppAvailable (fst (openInbox (device [''gmail'', ''outlook''] 2) (Object Map.empty))) \<and>
   is_NoAppAvailable (fst (openComposer (device [''gmail'', ''outlook''] 2) (Object Map.empty)))"
proof -
  have h: "\<not> truthy (js_get Map.empty ''app'')"
    by (simp add: js_get_def object_prototype_keys_def)
  have n: "2 \<le> length (installedApps (device [''gmail'', ''outlook''] b))" for b
    by (simp add: installed_two)
  have t: "js_index titles ''gmail'' = Str ''Gmail''" "js_index titles ''outlook'' = Str ''Outlook''"
    by (simp_all add: js_index_def js_member_def titles_def)
  have c: "default_param (js_get Map.empty ''cancelLabel'') (Str ''Cancel'') = Str ''Cancel''"
    by (simp add: default_param_def js_get_def object_prototype_keys_def)
  have b: "showActionSheetWithOptions (device [''gmail'', ''outlook''] b) sh = b" for b sh
    by (simp add: device_def)
  from getApp_picker [OF h n, of 1] have
    "\<exists>sh. snd (getApp (device [''gmail'', ''outlook''] 1) (Object Map.empty)) =
            probe_calls @ [ShowActionSheet sh] \<and>
         sheet_options sh = [Str ''Gmail'', Str ''Outlook'', Str ''Cancel''] \<and>
         sheet_cancelButtonIndex sh = 2 \<and>
         fst (getApp (device [''gmail'', ''outlook''] 1) (Object Map.empty)) = Inr (Str ''outlook'')"
    by (auto simp: installed_two t c b)
  moreover from getApp_picker [OF h n, of 2] have
    "is_NoAppAvailable (fst (getApp (device [''gmail'', ''outlook''] 2) (Object Map.empty))) \<and>
     is_NoAppAvailable (fst (openInbox (device [''gmail'', ''outlook''] 2) (Object Map.empty))) \<and>
     is_NoAppAvailable (fst (openComposer (device [''gmail'', ''outlook''] 2) (Object Map.empty)))"
    by (auto simp: installed_two b)
  ultimately show ?thesis using h n [of 1] by blast
qed

text \<open>
  C9: options whose \<open>app\<close> field is the empty string behave as options with no \<open>app\<close>
  field and as options whose \<open>app\<close> field is \<open>null\<close>: \<open>getApp\<close> gives the same result
  and makes the same calls, does not fail with either validation message, and starts by
  probing every registered app in registry order.
\<close>
theorem getApp_empty_app:
  "getApp env (Object (ps(''app'' \<mapsto> Str ''''))) = getApp env (Object (ps(''app'' := None))) \<and>
   getApp env (Object (ps(''app'' \<mapsto> Str ''''))) = getApp env (Object (ps(''app'' \<mapsto> Null))) \<and>
   \<not> is_InvalidOptions (fst (getApp env (Object (ps(''app'' \<mapsto> Str ''''))))) \<and>
   (\<exists>rest. snd (getApp env (Object (ps(''app'' \<mapsto> Str '''')))) = probe_calls @ rest)"
proof -
  have get: "js_get (ps(''app'' \<mapsto> v)) k = js_get ps k" "js_get (ps(''app'' := None)) k = js_get ps k"
    if "k \<noteq> ''app''" for k v
    using that by (simp_all add: js_get_def)
  have app: "\<not> truthy (js_get (ps(''app'' \<mapsto> Str '''')) ''app'')"
    "\<not> truthy (js_get (ps(''app'' \<mapsto> Null)) ''app'')"
    "\<not> truthy (js_get (ps(''app'' := None)) ''app'')"
    by (simp_all add: js_get_def object_prototype_keys_def)
  have eq: "getApp env (Object (ps(''app'' \<mapsto> Str ''''))) = getApp env (Object (ps(''app'' := None)))"
    "getApp env (Object (ps(''app'' \<mapsto> Str ''''))) = getApp env (Object (ps(''app'' \<mapsto> Null)))"
    by (simp_all add: getApp_no_app app get)
  let ?a = "askAppChoice env (js_get ps ''title'') (js_get ps ''message'')
              (js_get ps ''cancelLabel'') (js_get ps ''removeText'')"
  have tr: "\<exists>rest. snd ?a = probe_calls @ rest"
    by (cases "length (installedApps env) < 2")
      (simp_all add: askAppChoice_few askAppChoice_many Let_def)
  have g: "getApp env (Object (ps(''app'' \<mapsto> Str ''''))) =
            (if \<not> truthy (fst ?a) then Inl (EmailException msg_no_app) else Inr (fst ?a), snd ?a)"
    by (simp add: getApp_no_app app get split: prod.splits)
  have msgs: "msg_no_app \<noteq> msg_not_object" "msg_no_app \<noteq> msg_bad_app"
    by (simp_all add: msg_no_app_def msg_not_object_def msg_bad_app_def)
  have "\<not> is_InvalidOptions (fst (getApp env (Object (ps(''app'' \<mapsto> Str '''')))))"
    by (simp add: g is_InvalidOptions_def msgs)
  moreover have "\<exists>rest. snd (getApp env (Object (ps(''app'' \<mapsto> Str '''')))) = probe_calls @ rest"
    using tr by (simp add: g)
  ultimately show ?thesis using eq by blast
qed

lemma urlParams_apple:
  "urlParams [(''cc'', ''cc''), (''bcc'', ''bcc''), (''subject'', ''subject''), (''body'', ''body'')] opt =
     emitted opt ''cc'' ''cc'' @ emitted opt ''bcc'' ''bcc'' @
     emitted opt ''subject'' ''subject'' @ emitted opt ''body'' ''body''"
  by (simp add: urlParams_def object_keys_def emitted_def js_index_def js_member_def)

section \<open>The path of the compose URL\<close>

text \<open>
  C2: for \<open>apple-mail\<close> the path of the URL is the value of the option \<open>to\<close>, or empty
  when that option is absent or falsy, and the only pairs are those of \<open>cc\<close>, \<open>bcc\<close>,
  \<open>subject\<close> and \<open>body\<close>, so no pair has the key \<open>to\<close>; for every other app of the table
  the path is the \<open>path\<close> entry of its dialect.
\<close>
theorem getUrlParams_path:
  "getUrlParams (Str ''apple-mail'') (Object ps) =
     Inr ((if truthy (js_get ps ''to'') then to_string (js_get ps ''to'') else []) @ ''?'' @
          join ''&'' (emitted (js_get ps) ''cc'' ''cc'' @ emitted (js_get ps) ''bcc'' ''bcc'' @
                      emitted (js_get ps) ''subject'' ''subject'' @
                      emitted (js_get ps) ''body'' ''body'')) \<and>
   (\<forall>app dialect. (app, dialect) \<in> set uriParams \<and> app \<noteq> ''apple-mail'' \<longrightarrow>
      (\<exists>p. (''path'', p) \<in> set dialect \<and>
           getUrlParams (Str app) (Object ps) =
             Inr (p @ ''?'' @ join ''&'' (urlParams dialect (js_get ps)))))"
proof (intro conjI allI impI)
  have "js_member uriParams ''apple-mail'' =
          Own [(''cc'', ''cc''), (''bcc'', ''bcc''), (''subject'', ''subject''), (''body'', ''body'')]"
    by (simp add: js_member_def uriParams_def)
  then show "getUrlParams (Str ''apple-mail'') (Object ps) =
     Inr ((if truthy (js_get ps ''to'') then to_string (js_get ps ''to'') else []) @ ''?'' @
          join ''&'' (emitted (js_get ps) ''cc'' ''cc'' @ emitted (js_get ps) ''bcc'' ''bcc'' @
                      emitted (js_get ps) ''subject'' ''subject'' @
                      emitted (js_get ps) ''body'' ''body''))"
    by (simp add: getUrlParams_def js_or_def urlParams_apple)
next
  fix app dialect
  assume a: "(app, dialect) \<in> set uriParams \<and> app \<noteq> ''apple-mail''"
  then have m: "js_member uriParams app = Own dialect"
    by (auto simp: js_member_def uriParams_def)
  from a obtain p where p: "(''path'', p) \<in> set dialect" "js_index dialect ''path'' = Str p"
    by (auto simp: uriParams_def js_index_def js_member_def)
  from a m p have "getUrlParams (Str app) (Object ps) =
             Inr (p @ ''?'' @ join ''&'' (urlParams dialect (js_get ps)))"
    by (simp add: getUrlParams_def)
  with p show "\<exists>p. (''path'', p) \<in> set dialect \<and>
           getUrlParams (Str app) (Object ps) =
             Inr (p @ ''?'' @ join ''&'' (urlParams dialect (js_get ps)))"
    by blast
qed

lemma getUrlParams_examples:
  "getUrlParams (Str ''apple-mail'') (Object [''to'' \<mapsto> Str ''a@b.com'', ''subject'' \<mapsto> Str ''Hi'']) =
     Inr ''a@b.com?subject=Hi''"
  "getUrlParams (Str ''gmail'') (Object [''to'' \<mapsto> Str ''a@b.com'', ''subject'' \<mapsto> Str ''Hi'']) =
     Inr ''co?to=a@b.com&subject=Hi''"
  by code_simp+

theorem getUrlParams_path_witness:
  "getUrlParams (Str ''apple-mail'') (Object [''to'' \<mapsto> Str ''a@b.com'', ''subject'' \<mapsto> Str ''Hi'']) =
     Inr ''a@b.com?subject=Hi'' \<and>
   (''gmail'', [(''path'', ''co''), (''to'', ''to''), (''cc'', ''cc''), (''bcc'', ''bcc''),
                (''subject'', ''subject''), (''body'', ''body'')]) \<in> set uriParams \<and>
   ''gmail'' \<noteq> ''apple-mail'' \<and>
   (\<exists>pairs. getUrlParams (Str ''gmail'') (Object [''to'' \<mapsto> Str ''a@b.com'', ''subject'' \<mapsto> Str ''Hi'']) =
      Inr (''co'' @ ''?'' @ join ''&'' pairs))"
proof -
  let ?ps = "[''to'' \<mapsto> Str ''a@b.com'', ''subject'' \<mapsto> Str ''Hi'']"
  let ?d = "[(''path'', ''co''), (''to'', ''to''), (''cc'', ''cc''), (''bcc'', ''bcc''),
             (''subject'', ''subject''), (''body'', ''body'')]"
  have h: "(''gmail'', ?d) \<in> set uriParams \<and> ''gmail'' \<noteq> ''apple-mail''"
    by (simp add: uriParams_def)
  from getUrlParams_path [of ?ps] h obtain p where
    "(''path'', p) \<in> set ?d"
    "getUrlParams (Str ''gmail'') (Object ?ps) = Inr (p @ ''?'' @ join ''&'' (urlParams ?d (js_get ?ps)))"
    by blast
  then have "\<exists>pairs. getUrlParams (Str ''gmail'') (Object ?ps) = Inr (''co'' @ ''?'' @ join ''&'' pairs)"
    by auto
  moreover from getUrlParams_path [of ?ps]
  have "getUrlParams (Str ''apple-mail'') (Object ?ps) = Inr ''a@b.com?subject=Hi''"
    by (simp add: js_get_def emitted_def object_prototype_keys_def)
  ultimately show ?thesis using h by blast
qed

section \<open>Validation of the options\<close>

text \<open>
  C4 as stated: \<open>getApp\<close> fails with a validation message exactly when the options are not
  object-like or their \<open>app\<close> field holds a non-empty value outside the registry. With no
  options at all the first test lets \<^verbatim>\<open>undefined\<close> through, and \<^verbatim>\<open>'app' in options\<close> throws a
  \<^verbatim>\<open>TypeError\<close>, which is neither validation message.
\<close>
theorem getApp_TypeError_counterexample:
  "fst (getApp (device [] 0) ArgUndefined) = Inl TypeError \<and>
   \<not> (is_InvalidOptions (fst (getApp (device [] 0) ArgUndefined)) \<longleftrightarrow>
        (\<not> object_like ArgUndefined \<or> app_outside ArgUndefined))"
  by (simp add: getApp_def is_InvalidOptions_def)

lemma messages_differ: "msg_no_app \<noteq> msg_not_object" "msg_no_app \<noteq> msg_bad_app"
  by (simp_all add: msg_no_app_def msg_not_object_def msg_bad_app_def)

lemma getUrlParams_error: "getUrlParams app options = Inl e \<Longrightarrow> e = TypeError"
  by (cases options)
    (auto simp: getUrlParams_def Let_def split: member.splits sum.splits)

lemma open_validation:
  "is_InvalidOptions (fst (openInbox env options)) = is_InvalidOptions (fst (getApp env options))"
  "is_InvalidOptions (fst (openComposer env options)) = is_InvalidOptions (fst (getApp env options))"
  "is_InvalidOptions (fst (getApp env options)) \<Longrightarrow>
     snd (openInbox env options) = snd (getApp env options) \<and>
     snd (openComposer env options) = snd (getApp env options)"
proof -
  obtain r tr where g: "getApp env options = (r, tr)" by (cases "getApp env options")
  show "is_InvalidOptions (fst (openInbox env options)) = is_InvalidOptions (fst (getApp env options))"
    by (cases r; cases "openURL env (js_index prefixes (to_string (projr r)))")
      (simp_all add: g openInbox_def is_InvalidOptions_def settle_def Let_def)
  show "is_InvalidOptions (fst (openComposer env options)) =
          is_InvalidOptions (fst (getApp env options))"
    by (cases r)
      (auto simp: g openComposer_def is_InvalidOptions_def settle_def Let_def
        split: sum.splits promise.splits dest: getUrlParams_error)
  show "is_InvalidOptions (fst (getApp env options)) \<Longrightarrow>
     snd (openInbox env options) = snd (getApp env options) \<and>
     snd (openComposer env options) = snd (getApp env options)"
    by (cases r) (simp_all add: g openInbox_def openComposer_def is_InvalidOptions_def)
qed

text \<open>
  C4, amended: \<open>getApp\<close>, and with it \<open>openInbox\<close> and \<open>openComposer\<close>, fails with a
  validation message exactly when the options are truthy and not an object, or are an
  object whose \<open>app\<close> field is truthy and not a key of the registry; and whenever one of
  the three fails with a validation message, it has made no call at all: no probe, no
  picker, no launch.
\<close>

theorem getApp_InvalidOptions:
  "(is_InvalidOptions (fst (getApp env options)) \<longleftrightarrow>
      (truthy_arg options \<and> \<not> object_like options) \<or> app_outside options) \<and>
   (is_InvalidOptions (fst (openInbox env options)) \<longleftrightarrow>
      (truthy_arg options \<and> \<not> object_like options) \<or> app_outside options) \<and>
   (is_InvalidOptions (fst (openComposer env options)) \<longleftrightarrow>
      (truthy_arg options \<and> \<not> object_like options) \<or> app_outside options) \<and>
   (is_InvalidOptions (fst (getApp env options)) \<longrightarrow> snd (getApp env options) = []) \<and>
   (is_InvalidOptions (fst (openInbox env options)) \<longrightarrow> snd (openInbox env options) = []) \<and>
   (is_InvalidOptions (fst (openComposer env options)) \<longrightarrow>
      snd (openComposer env options) = [])"
proof -
  have g: "(is_InvalidOptions (fst (getApp env options)) \<longleftrightarrow>
              (truthy_arg options \<and> \<not> object_like options) \<or> app_outside options) \<and>
           (is_InvalidOptions (fst (getApp env options)) \<longrightarrow> snd (getApp env options) = [])"
  proof (cases options)
    case (Object ps)
    show ?thesis
    proof (cases "truthy (js_get ps ''app'')")
      case True
      then have has: "js_has ''app'' ps"
        by (auto simp: js_has_def js_get_def split: option.splits if_splits)
      have idx: "indexOf (object_keys prefixes) (js_get ps ''app'') < 0 \<longleftrightarrow>
                   js_get ps ''app'' \<notin> Str ` set (object_keys prefixes)"
        using indexOf_keys [of "object_keys prefixes" "js_get ps ''app''"] by auto
      from True have d: "default_param (js_get ps ''app'') Null = js_get ps ''app''"
        by (auto simp: default_param_def)
      show ?thesis using True has
        by (simp add: Object getApp_def idx d is_InvalidOptions_def)
    next
      case False
      let ?a = "askAppChoice env (js_get ps ''title'') (js_get ps ''message'')
                  (js_get ps ''cancelLabel'') (js_get ps ''removeText'')"
      have "getApp env (Object ps) =
              (if \<not> truthy (fst ?a) then Inl (EmailException msg_no_app) else Inr (fst ?a),
               snd ?a)"
        using False by (simp add: getApp_no_app split: prod.splits)
      then show ?thesis using False
        by (simp add: Object is_InvalidOptions_def messages_differ)
    qed
  qed (simp_all add: getApp_def is_InvalidOptions_def)
  show ?thesis
    using g open_validation [of env options] by simp
qed

theorem getApp_InvalidOptions_witness:
  "is_InvalidOptions (fst (getApp (device [''gmail''] 0) (ArgStr ''gmail''))) \<and>
   is_InvalidOptions (fst (openInbox (device [''gmail''] 0) (ArgStr ''gmail''))) \<and>
   snd (openInbox (device [''gmail''] 0) (ArgStr ''gmail'')) = [] \<and>
   is_InvalidOptions (fst (getApp (device [''gmail''] 0) (Object [''app'' \<mapsto> Str ''yahoo'']))) \<and>
   snd (getApp (device [''gmail''] 0) (Object [''app'' \<mapsto> Str ''yahoo''])) = [] \<and>
   is_InvalidOptions (fst (openComposer (device [''gmail''] 0) (Object [''app'' \<mapsto> Str ''yahoo'']))) \<and>
   snd (openComposer (device [''gmail''] 0) (Object [''app'' \<mapsto> Str ''yahoo''])) = [] \<and>
   \<not> is_InvalidOptions (fst (getApp (device [''gmail''] 0) (Object [''app'' \<mapsto> Str ''gmail'']))) \<and>
   \<not> is_InvalidOptions (fst (openInbox (device [''gmail''] 0) (Object [''app'' \<mapsto> Str ''gmail'']))) \<and>
   \<not> is_InvalidOptions (fst (getApp (device [''gmail''] 0) ArgUndefined)) \<and>
   \<not> is_InvalidOptions (fst (openComposer (device [''gmail''] 0) ArgUndefined))"
  using getApp_InvalidOptions [of "device [''gmail''] 0" "ArgStr ''gmail''"]
    getApp_InvalidOptions [of "device [''gmail''] 0" "Object [''app'' \<mapsto> Str ''yahoo'']"]
    getApp_InvalidOptions [of "device [''gmail''] 0" "Object [''app'' \<mapsto> Str ''gmail'']"]
    getApp_InvalidOptions [of "device [''gmail''] 0" ArgUndefined]
  by (simp add: js_get_def object_keys_prefixes)

section \<open>The pairs of the compose URL\<close>

text \<open>
  C1: the URL is the path, \<open>?\<close>, and one pair for each of \<open>to\<close>, \<open>cc\<close>, \<open>bcc\<close>,
  \<open>subject\<close>, \<open>body\<close> that the dialect defines and the options fill. \<open>getUrlParams\<close>
  walks every key of the dialect, and \<open>path\<close> is one of them for every app but
  \<open>apple-mail\<close>: options that hold a \<open>path\<close> property get a pair for it, which the
  specification's builder does not emit.
\<close>
theorem getUrlParams_leaks_path:
  "getUrlParams (Str ''gmail'') (Object [''path'' \<mapsto> Str ''x'', ''to'' \<mapsto> Str ''a@b.com'']) =
     Inr ''co?co=x&to=a@b.com'' \<and>
   spec_buildComposeUrl ''gmail'' [''path'' \<mapsto> Str ''x'', ''to'' \<mapsto> Str ''a@b.com''] =
     ''co?to=a@b.com''"
  by code_simp

text \<open>
  Without a truthy \<open>path\<close> property in the options, \<open>getUrlParams\<close> is the builder of the
  specification, for every app of the table.
\<close>

lemma getUrlParams_without_path:
  assumes "(app, dialect) \<in> set uriParams" and "\<not> truthy (js_get ps ''path'')"
  shows "getUrlParams (Str app) (Object ps) = Inr (spec_buildComposeUrl app ps)"
proof -
  have m: "js_member uriParams app = Own dialect" "map_of uriParams app = Some dialect"
    using assms(1) by (auto simp: js_member_def uriParams_def)
  have pairs: "urlParams dialect (js_get ps) = spec_pairs dialect (js_get ps)"
    using assms
    by (auto simp: uriParams_def urlParams_def spec_pairs_def emitted_def object_keys_def
        js_index_def js_member_def)
  have path: "app \<noteq> ''apple-mail'' \<Longrightarrow>
      to_string (js_index dialect ''path'') = (case map_of dialect ''path'' of Some p \<Rightarrow> p | None \<Rightarrow> [])"
    using assms(1) by (auto simp: uriParams_def js_index_def js_member_def)
  show ?thesis
    using path by (simp add: getUrlParams_def spec_buildComposeUrl_def m pairs js_or_def)
qed

section \<open>The availability probe\<close>

text \<open>
  C5: \<open>isAppInstalled\<close> answers false for an unrecognised app id without calling the probe.
  The test \<^verbatim>\<open>app in prefixes\<close> also holds of the names \<open>prefixes\<close> inherits from
  \<^verbatim>\<open>Object.prototype\<close>: for \<open>toString\<close>, which is no app id, the probe is called, with the
  inherited function as its URL.
\<close>
theorem isAppInstalled_inherited_name:
  "js_member prefixes ''toString'' = Inherited ''toString'' \<and>
   snd (isAppInstalled env ''toString'') = [CanOpenURL (Builtin ''toString'')]"
  by (simp add: isAppInstalled_def js_in_def js_index_def js_member_def prefixes_def
      object_prototype_keys_def split: promise.splits)

text \<open>
  For a name that is neither registered nor inherited the probe is not called, and for a
  registered app the answer is the probe's, or false when the probe rejects.
\<close>

lemma isAppInstalled_unknown:
  "app \<notin> set (object_keys prefixes) \<Longrightarrow> app \<notin> set object_prototype_keys \<Longrightarrow>
     isAppInstalled env app = (False, [])"
proof -
  assume "app \<notin> set (object_keys prefixes)" "app \<notin> set object_prototype_keys"
  moreover from this(1) have "map_of prefixes app = None"
    by (simp add: object_keys_def map_of_eq_None_iff)
  ultimately show ?thesis
    by (simp add: isAppInstalled_def js_in_def js_member_def)
qed

lemma isAppInstalled_registered:
  "(app, scheme) \<in> set prefixes \<Longrightarrow>
     isAppInstalled env app =
       (case canOpenURL env (Str scheme) of Resolved b \<Rightarrow> b | Rejected \<Rightarrow> False,
        [CanOpenURL (Str scheme)])"
proof -
  assume "(app, scheme) \<in> set prefixes"
  then have "js_member prefixes app = Own scheme"
    by (auto simp: js_member_def prefixes_def)
  then show ?thesis
    by (simp add: isAppInstalled_def js_in_def js_index_def split: promise.splits)
qed

end
